theory Spec2Isabelle
  imports Main "HOL-Library.Word" "HOL-Library.Sublist" "HOL-Library.AList"
begin

section \<open>Reflected types and values\<close>

text \<open>
  The package walks a Go struct type with \<^verbatim>\<open>reflect\<close>. A type is a finite tree: the
  kinds the code distinguishes, the two named types of package \<^verbatim>\<open>time\<close> it compares
  against (\<^verbatim>\<open>time.Duration\<close>, of kind int64, and \<^verbatim>\<open>time.Time\<close>, of kind struct) and
  a catch-all for every other kind (chan, bool, map, ...). A struct field carries its
  name, its package path (empty exactly when the field is exported), its struct tag as
  the list of its key/value pairs, and its type. Recursive named types are not finite
  trees and are outside this model.
\<close>

datatype kind =
  KString | KInt | KInt8 | KInt16 | KInt32 | KInt64 | KFloat32 | KFloat64
  | KPtr | KStruct | KSlice | KOther string

datatype ty =
  TString | TInt | TInt8 | TInt16 | TInt32 | TInt64 | TFloat32 | TFloat64
  | TDuration | TTime
  | TPtr ty | TSlice ty | TStruct "sfield list" | TOther string
and sfield =
  SField (fname: string) (PkgPath: string) (Tag: "(string \<times> string) list") (ftype: ty)

fun Kind :: "ty \<Rightarrow> kind" where
  "Kind TString = KString"
| "Kind TInt = KInt"
| "Kind TInt8 = KInt8"
| "Kind TInt16 = KInt16"
| "Kind TInt32 = KInt32"
| "Kind TInt64 = KInt64"
| "Kind TFloat32 = KFloat32"
| "Kind TFloat64 = KFloat64"
| "Kind TDuration = KInt64"
| "Kind TTime = KStruct"
| "Kind (TPtr t) = KPtr"
| "Kind (TSlice t) = KSlice"
| "Kind (TStruct fs) = KStruct"
| "Kind (TOther k) = KOther k"

text \<open>
  \<^verbatim>\<open>time.Time\<close> is the struct \<^verbatim>\<open>{wall uint64; ext int64; loc *Location}\<close>; a float is
  held by its IEEE bit pattern.
\<close>

datatype gotime = GoTime (wall: "64 word") (ext: "64 word") (loc: "string option")

datatype val =
  VString string
  | VInt int
  | VFloat32 "32 word"
  | VFloat64 "64 word"
  | VDuration int
  | VTime gotime
  | VPtr "val option"
  | VSlice "val list"
  | VStruct "val list"
  | VOther

text \<open>The zero value of a type, as \<^verbatim>\<open>reflect.New\<close> and \<^verbatim>\<open>reflect.MakeSlice\<close> produce it.\<close>

fun zero :: "ty \<Rightarrow> val" and zero_field :: "sfield \<Rightarrow> val" where
  "zero TString = VString []"
| "zero TInt = VInt 0"
| "zero TInt8 = VInt 0"
| "zero TInt16 = VInt 0"
| "zero TInt32 = VInt 0"
| "zero TInt64 = VInt 0"
| "zero TFloat32 = VFloat32 0"
| "zero TFloat64 = VFloat64 0"
| "zero TDuration = VDuration 0"
| "zero TTime = VTime (GoTime 0 0 None)"
| "zero (TPtr t) = VPtr None"
| "zero (TSlice t) = VSlice []"
| "zero (TStruct fs) = VStruct (map zero_field fs)"
| "zero (TOther k) = VOther"
| "zero_field (SField n pkg tg t) = zero t"

section \<open>Parameters, errors and the parameter store\<close>

datatype ParameterType =
  ParameterTypeString | ParameterTypeStringList | ParameterTypeSecureString
  | ParameterTypeOther string

text \<open>
  An \<^verbatim>\<open>ssm.Parameter\<close>. The SDK's \<^verbatim>\<open>*string\<close> fields are modelled as strings: a
  parameter that reaches the code carries a name and a value (the parameter built for
  a slice element leaves the name unset and never reads it).
\<close>

record Parameter =
  Name :: string
  Type :: ParameterType
  Value :: string

text \<open>
  Errors are built with \<^verbatim>\<open>fmt.Errorf\<close>; each constructor stands for one format string
  of the source and keeps its arguments.
\<close>

datatype numcause = ErrSyntax | ErrRange

datatype error =
  ErrLoadConfig string            \<comment> \<open>\<^verbatim>\<open>load external aws config: %v\<close>\<close>
  | ErrNotPointer                 \<comment> \<open>\<^verbatim>\<open>target is not a pointer\<close>\<close>
  | ErrNilPointer                 \<comment> \<open>\<^verbatim>\<open>target is a nil pointer\<close>\<close>
  | ErrNotStruct                  \<comment> \<open>\<^verbatim>\<open>target is not a pointer to a struct\<close>\<close>
  | ErrReadSSM string             \<comment> \<open>\<^verbatim>\<open>read ssm: %v\<close>\<close>
  | ErrName string error          \<comment> \<open>\<^verbatim>\<open>%s: %v\<close>, the parameter name and the cause\<close>
  | NotFoundError "string list"   \<comment> \<open>the type \<^verbatim>\<open>NotFoundError\<close> with its names\<close>
  | ErrCannotAssign ParameterType ty  \<comment> \<open>\<^verbatim>\<open>cannot assign %s to %s\<close>\<close>
  | ErrCannotSet ParameterType ty     \<comment> \<open>\<^verbatim>\<open>cannot set %s to %s\<close>\<close>
  | ErrSliceIndex nat error       \<comment> \<open>\<^verbatim>\<open>set slice index %d: %v\<close>\<close>
  | ErrUnsupported kind           \<comment> \<open>\<^verbatim>\<open>unsupported: %s\<close>\<close>
  | ErrMustBeExported string      \<comment> \<open>\<^verbatim>\<open>field %q must be exported\<close>\<close>
  | ErrParseInt string numcause   \<comment> \<open>\<^verbatim>\<open>parse %q as int: %v\<close>\<close>
  | ErrParseFloat string numcause \<comment> \<open>\<^verbatim>\<open>parse %q as float: %v\<close>\<close>
  | ErrLibrary string             \<comment> \<open>an error of \<^verbatim>\<open>time.ParseDuration\<close> or \<^verbatim>\<open>time.Parse\<close>, returned as it is\<close>

text \<open>
  The option functions can only append the three converters of the package, since the
  field \<^verbatim>\<open>converters\<close> is unexported; a converter is named by the option that adds it.
\<close>

datatype converter = ConvDuration | ConvTime string | ConvNumber

text \<open>
  The client: \<^verbatim>\<open>GetParametersRequest(input).Send(ctx)\<close> for the requested names, with
  decryption, answers with an error or with the returned parameters.
\<close>

type_synonym Client = "string list \<Rightarrow> string + Parameter list"

record ParamStore =
  prefix :: string
  tag :: string
  converters :: "converter list"
  cli :: "Client option"

type_synonym Option = "ParamStore \<Rightarrow> ParamStore"

subsection \<open>Options\<close>





definition WithTag :: "string \<Rightarrow> Option" where
  "WithTag t s = s\<lparr>tag := t\<rparr>"

definition WithParseDuration :: Option where
  "WithParseDuration s = s\<lparr>converters := converters s @ [ConvDuration]\<rparr>"

definition WithParseTime :: "string \<Rightarrow> Option" where
  "WithParseTime layout s = s\<lparr>converters := converters s @ [ConvTime layout]\<rparr>"

definition WithParseNumber :: Option where
  "WithParseNumber s = s\<lparr>converters := converters s @ [ConvNumber]\<rparr>"

definition WithClient :: "Client \<Rightarrow> Option" where
  "WithClient c s = s\<lparr>cli := Some c\<rparr>"

text \<open>
  \<^verbatim>\<open>NewParamStore\<close>. The environment is the result of
  \<^verbatim>\<open>external.LoadDefaultAWSConfig()\<close> and the constructor \<^verbatim>\<open>ssm.New\<close>. When no client
  was set, the source evaluates \<^verbatim>\<open>WithClient(ssm.New(cfg))\<close> and drops the option it
  returns: the option is never applied to \<^verbatim>\<open>s\<close>.
\<close>

definition defaults :: ParamStore where
  "defaults = \<lparr>prefix = [], tag = ''ssm'', converters = [], cli = None\<rparr>"

definition NewParamStore ::
  "(string + 'cfg) \<Rightarrow> ('cfg \<Rightarrow> Client) \<Rightarrow> Option list \<Rightarrow> error + ParamStore" where
  "NewParamStore LoadDefaultAWSConfig ssm_New options =
     (let s = foldl (\<lambda>s opt. opt s) defaults options in
      if cli s = None then
        (case LoadDefaultAWSConfig of
           Inl err \<Rightarrow> Inl (ErrLoadConfig err)
         | Inr cfg \<Rightarrow> (let unused = WithClient (ssm_New cfg) in Inr s))
      else Inr s)"

section \<open>Conversion\<close>

subsection \<open>The library functions the converters call\<close>

text \<open>
  \<^verbatim>\<open>strconv.ParseInt(s, 10, 64)\<close> of the Go standard library, after its documentation
  and source: an optional sign, then one or more decimal digits (an underscore is a
  syntax error in base 10); the digits are read left to right and the first failure
  wins, a value beyond the 64-bit range is a range error. The result is the cause of
  the \<^verbatim>\<open>*NumError\<close> (whose \<^verbatim>\<open>Num\<close> is the whole input) or the number.
\<close>

definition isDigit :: "char \<Rightarrow> bool" where
  "isDigit c = (48 \<le> (of_char c :: nat) \<and> (of_char c :: nat) \<le> 57)"

definition maxUint64 :: nat where
  "maxUint64 = 2 ^ 64 - 1"

fun ParseUint_loop :: "string \<Rightarrow> nat \<Rightarrow> numcause + nat" where
  "ParseUint_loop [] n = Inr n"
| "ParseUint_loop (c # cs) n =
     (if \<not> isDigit c then Inl ErrSyntax
      else if n * 10 + (of_char c - 48) > maxUint64 then Inl ErrRange
      else ParseUint_loop cs (n * 10 + (of_char c - 48)))"

definition ParseUint :: "string \<Rightarrow> numcause + nat" where
  "ParseUint s = (if s = [] then Inl ErrSyntax else ParseUint_loop s 0)"

definition ParseInt :: "string \<Rightarrow> numcause + int" where
  "ParseInt s =
     (if s = [] then Inl ErrSyntax
      else
        let neg = (hd s = CHR ''-'');
            s1 = (if hd s = CHR ''+'' \<or> hd s = CHR ''-'' then tl s else s)
        in case ParseUint s1 of
             Inl ErrSyntax \<Rightarrow> Inl ErrSyntax
           | Inl ErrRange \<Rightarrow> Inl ErrRange
           | Inr un \<Rightarrow>
               if \<not> neg \<and> un \<ge> 2 ^ 63 then Inl ErrRange
               else if neg \<and> un > 2 ^ 63 then Inl ErrRange
               else Inr (if neg then - int un else int un))"

text \<open>
  The other library functions are not modelled; they are parameters:
  \<^verbatim>\<open>time.ParseDuration\<close> (nanoseconds), \<^verbatim>\<open>time.Parse\<close> (layout, then value),
  \<^verbatim>\<open>strconv.ParseFloat(s, 64)\<close> and the conversion \<^verbatim>\<open>float32(x)\<close>.
\<close>

record stdlib =
  time_ParseDuration :: "string \<Rightarrow> string + int"
  time_Parse :: "string \<Rightarrow> string \<Rightarrow> string + gotime"
  strconv_ParseFloat :: "string \<Rightarrow> numcause + 64 word"
  float32 :: "64 word \<Rightarrow> 32 word"

text \<open>
  \<^verbatim>\<open>reflect.Value.SetInt\<close> stores \<^verbatim>\<open>int8(x)\<close>, \<^verbatim>\<open>int16(x)\<close>, ... according to the kind
  of the value: the Go conversion keeps the low bits. \<^verbatim>\<open>int\<close> has 64 bits (a 64-bit
  platform). It is only called on the integer kinds.
\<close>

fun SetInt :: "ty \<Rightarrow> int \<Rightarrow> val" where
  "SetInt TInt8 x = VInt (sint (word_of_int x :: 8 word))"
| "SetInt TInt16 x = VInt (sint (word_of_int x :: 16 word))"
| "SetInt TInt32 x = VInt (sint (word_of_int x :: 32 word))"
| "SetInt TInt64 x = VInt (sint (word_of_int x :: 64 word))"
| "SetInt TInt x = VInt (sint (word_of_int x :: 64 word))"
| "SetInt TDuration x = VDuration (sint (word_of_int x :: 64 word))"
| "SetInt t x = zero t"

fun SetFloat :: "stdlib \<Rightarrow> ty \<Rightarrow> 64 word \<Rightarrow> val" where
  "SetFloat L TFloat32 x = VFloat32 (float32 L x)"
| "SetFloat L TFloat64 x = VFloat64 x"
| "SetFloat L t x = zero t"

subsection \<open>The converters\<close>

text \<open>
  A converter returns \<^verbatim>\<open>(false, err)\<close> as \<open>Inl err\<close>, \<^verbatim>\<open>(false, nil)\<close> as \<open>Inr None\<close>
  and \<^verbatim>\<open>(true, nil)\<close> as \<open>Inr (Some v)\<close>, \<open>v\<close> being what it has stored in the value.
\<close>

fun conv :: "stdlib \<Rightarrow> converter \<Rightarrow> Parameter \<Rightarrow> ty \<Rightarrow> error + val option" where
  "conv L ConvDuration param t =
     (if t \<noteq> TDuration then Inr None
      else case time_ParseDuration L (Value param) of
             Inl err \<Rightarrow> Inl (ErrLibrary err)
           | Inr d \<Rightarrow> Inr (Some (VDuration d)))"
| "conv L (ConvTime layout) param t =
     (if t \<noteq> TTime then Inr None
      else case time_Parse L layout (Value param) of
             Inl err \<Rightarrow> Inl (ErrLibrary err)
           | Inr tm \<Rightarrow> Inr (Some (VTime tm)))"
| "conv L ConvNumber param t =
     (if Kind t \<in> {KInt, KInt8, KInt16, KInt32, KInt64} then
        (case ParseInt (Value param) of
           Inl cause \<Rightarrow> Inl (ErrParseInt (Value param) cause)
         | Inr num \<Rightarrow> Inr (Some (SetInt t num)))
      else if Kind t \<in> {KFloat32, KFloat64} then
        (case strconv_ParseFloat L (Value param) of
           Inl cause \<Rightarrow> Inl (ErrParseFloat (Value param) cause)
         | Inr num \<Rightarrow> Inr (Some (SetFloat L t num)))
      else Inr None)"

fun run_converters ::
  "stdlib \<Rightarrow> converter list \<Rightarrow> Parameter \<Rightarrow> ty \<Rightarrow> error + val option" where
  "run_converters L [] p t = Inr None"
| "run_converters L (c # cs) p t =
     (case conv L c p t of
        Inl err \<Rightarrow> Inl err
      | Inr (Some v) \<Rightarrow> Inr (Some v)
      | Inr None \<Rightarrow> run_converters L cs p t)"

subsection \<open>setValue\<close>

text \<open>\<^verbatim>\<open>strings.Split(s, sep)\<close> for a separator of one character.\<close>

fun Split :: "string \<Rightarrow> char \<Rightarrow> string list" where
  "Split [] c = [[]]"
| "Split (x # xs) c =
     (if x = c then [] # Split xs c
      else case Split xs c of [] \<Rightarrow> [[x]] | part # parts \<Rightarrow> (x # part) # parts)"

text \<open>
  The loop over the parts of a list: the elements are converted in order, the first
  error is returned with its index, otherwise the slice holds every element.
\<close>

fun set_parts :: "nat \<Rightarrow> (error + val) list \<Rightarrow> error + val list" where
  "set_parts i [] = Inr []"
| "set_parts i (r # rs) =
     (case r of
        Inl err \<Rightarrow> Inl (ErrSliceIndex i err)
      | Inr x \<Rightarrow> (case set_parts (Suc i) rs of Inl e \<Rightarrow> Inl e | Inr xs \<Rightarrow> Inr (x # xs)))"

text \<open>
  \<^verbatim>\<open>setValue(p, v)\<close> for a value \<open>v\<close> of type \<open>t\<close>: the error, or the new content of
  \<open>v\<close>. The old content is never read, and \<open>v\<close> is only written on success.
\<close>

fun setValue :: "stdlib \<Rightarrow> ParamStore \<Rightarrow> Parameter \<Rightarrow> ty \<Rightarrow> error + val" where
  "setValue L s p t =
     (case run_converters L (converters s) p t of
        Inl err \<Rightarrow> Inl err
      | Inr (Some v) \<Rightarrow> Inr v
      | Inr None \<Rightarrow>
          (case t of
             TString \<Rightarrow>
               (if Type p = ParameterTypeString \<or> Type p = ParameterTypeSecureString
                then Inr (VString (Value p))
                else Inl (ErrCannotAssign (Type p) t))
           | TSlice te \<Rightarrow>
               (if Type p \<noteq> ParameterTypeStringList then Inl (ErrCannotSet (Type p) t)
                else
                  (case set_parts 0
                          (map (\<lambda>part. setValue L s
                                  \<lparr>Name = [], Type = ParameterTypeString, Value = part\<rparr> te)
                             (Split (Value p) CHR '',''))
                   of Inl err \<Rightarrow> Inl err
                    | Inr xs \<Rightarrow> Inr (VSlice xs)))
           | _ \<Rightarrow> Inl (ErrUnsupported (Kind t))))"

declare setValue.simps [simp del]

section \<open>Schema resolution\<close>

text \<open>
  The schema is a Go map from parameter names to field index paths. It is held as an
  association list with distinct keys: \<^verbatim>\<open>m[k] = v\<close> is \<open>AList.update\<close>, \<^verbatim>\<open>delete(m, k)\<close>
  is \<open>AList.delete\<close>, \<^verbatim>\<open>len(m)\<close> is the length. Go iterates over a map in no
  particular order; the list fixes one.
\<close>

type_synonym schema_map = "(string \<times> nat list) list"

definition Elem_if_Ptr :: "ty \<Rightarrow> ty" where
  "Elem_if_Ptr t = (case t of TPtr t' \<Rightarrow> t' | _ \<Rightarrow> t)"

lemma size_nested_fields [termination_simp]:
  "Elem_if_Ptr (ftype f) = TStruct fs' \<Longrightarrow> size_list size fs' < size f"
  by (cases f; cases "ftype f") (auto simp: Elem_if_Ptr_def)

text \<open>
  The loop of \<^verbatim>\<open>schema\<close> over the fields \<^verbatim>\<open>i, i+1, ...\<close> of a struct type, with the
  map \<^verbatim>\<open>m\<close> built so far; \<open>tg\<close> is the tag of the store.
\<close>

fun schema_loop ::
  "string \<Rightarrow> sfield list \<Rightarrow> string \<Rightarrow> nat list \<Rightarrow> nat \<Rightarrow> schema_map \<Rightarrow> error + schema_map"
where
  "schema_loop tg [] keyPrefix index i m = Inr m"
| "schema_loop tg (f # fs) keyPrefix index i m =
     (case map_of (Tag f) tg of
        None \<Rightarrow> schema_loop tg fs keyPrefix index (Suc i) m
      | Some name0 \<Rightarrow>
          if PkgPath f \<noteq> [] then Inl (ErrMustBeExported (fname f))
          else
            let name = keyPrefix @ ''/'' @ name0 in
            (case Elem_if_Ptr (ftype f) of
               TStruct fs' \<Rightarrow>
                 (case schema_loop tg fs' name (index @ [i]) 0 [] of
                    Inl err \<Rightarrow> Inl err
                  | Inr nested \<Rightarrow>
                      schema_loop tg fs keyPrefix index (Suc i)
                        (fold (\<lambda>(k, v) m. AList.update k v m) nested m))
             | _ \<Rightarrow>
                 schema_loop tg fs keyPrefix index (Suc i)
                   (AList.update name (index @ [i]) m)))"

text \<open>
  \<^verbatim>\<open>schema(t, keyPrefix, index)\<close>. It is called on types of kind struct only; the fields
  of \<^verbatim>\<open>time.Time\<close> carry no tag.
\<close>

definition schema :: "ParamStore \<Rightarrow> ty \<Rightarrow> string \<Rightarrow> nat list \<Rightarrow> error + schema_map" where
  "schema s t keyPrefix index =
     (case t of
        TStruct fs \<Rightarrow> schema_loop (tag s) fs keyPrefix index 0 []
      | _ \<Rightarrow> Inr [])"

section \<open>Read\<close>

text \<open>
  A call ends normally, with an error it returns, or in a run-time panic.
\<close>

datatype outcome = Done | Failed error | Panicked string

text \<open>
  The walk of \<^verbatim>\<open>Read\<close> along an index path, from a value \<open>v\<close> of type \<open>t\<close>, followed by
  \<^verbatim>\<open>setValue\<close> on the field it reaches. \<^verbatim>\<open>field.Field(i)\<close> panics unless \<^verbatim>\<open>field\<close> is a
  struct with more than \<open>i\<close> fields; a nil pointer is replaced by a new zero value and
  followed, a pointer that is not nil is left as the current field. The result is the
  value \<open>v\<close> after the call and how the call ended: what the walk allocated stays
  allocated when \<^verbatim>\<open>setValue\<close> fails.
\<close>

fun walk ::
  "stdlib \<Rightarrow> ParamStore \<Rightarrow> Parameter \<Rightarrow> ty \<Rightarrow> val \<Rightarrow> nat list \<Rightarrow> val \<times> outcome" where
  "walk L s p t v [] =
     (case setValue L s p t of
        Inl err \<Rightarrow> (v, Failed err)
      | Inr v' \<Rightarrow> (v', Done))"
| "walk L s p t v (i # index) =
     (case (t, v) of
        (TStruct fs, VStruct vs) \<Rightarrow>
          if i < length fs \<and> i < length vs then
            (case (ftype (fs ! i), vs ! i) of
               (TPtr te, VPtr None) \<Rightarrow>
                 (case walk L s p te (zero te) index of
                    (r, out) \<Rightarrow> (VStruct (vs[i := VPtr (Some r)]), out))
             | (tf, vf) \<Rightarrow>
                 (case walk L s p tf vf index of
                    (r, out) \<Rightarrow> (VStruct (vs[i := r]), out)))
          else (v, Panicked ''reflect: Field index out of range'')
      | _ \<Rightarrow> (v, Panicked ''reflect: call of reflect.Value.Field on a value that is not a struct''))"

text \<open>
  The loop of \<^verbatim>\<open>Read\<close> over the returned parameters: the target after the loop, the
  schema after the loop, and how the loop ended. The lookup \<^verbatim>\<open>schema[name]\<close> of a name
  that is not in the map is the nil slice, that is the empty path. A \<^verbatim>\<open>setValue\<close>
  error is returned behind the name of the parameter.
\<close>

fun process ::
  "stdlib \<Rightarrow> ParamStore \<Rightarrow> Parameter list \<Rightarrow> schema_map \<Rightarrow> ty \<Rightarrow> val
     \<Rightarrow> val \<times> schema_map \<times> outcome" where
  "process L s [] sch t v = (v, sch, Done)"
| "process L s (param # params) sch t v =
     (let name = Name param;
          index = (case map_of sch name of None \<Rightarrow> [] | Some ix \<Rightarrow> ix);
          sch' = AList.delete name sch
      in case walk L s param t v index of
           (v', Done) \<Rightarrow> process L s params sch' t v'
         | (v', Failed err) \<Rightarrow> (v', sch', Failed (ErrName name err))
         | (v', Panicked msg) \<Rightarrow> (v', sch', Panicked msg))"

text \<open>
  The argument of \<^verbatim>\<open>Read\<close>: something that is not a pointer, a nil pointer, or a pointer
  to a value of some type.
\<close>

datatype target = NotPointer | NilPointer | PointerTo ty val

fun Read :: "stdlib \<Rightarrow> ParamStore \<Rightarrow> target \<Rightarrow> target \<times> outcome" where
  "Read L s NotPointer = (NotPointer, Failed ErrNotPointer)"
| "Read L s NilPointer = (NilPointer, Failed ErrNilPointer)"
| "Read L s (PointerTo t v) =
     (if Kind t \<noteq> KStruct then (PointerTo t v, Failed ErrNotStruct)
      else case schema s t (prefix s) [] of
        Inl err \<Rightarrow> (PointerTo t v, Failed err)
      | Inr sch \<Rightarrow>
          let names = map fst sch in
          (case cli s of
             None \<Rightarrow> (PointerTo t v, Panicked ''invalid memory address or nil pointer dereference'')
           | Some c \<Rightarrow>
               (case c names of
                  Inl err \<Rightarrow> (PointerTo t v, Failed (ErrReadSSM err))
                | Inr params \<Rightarrow>
                    (case process L s params sch t v of
                       (v', sch', Done) \<Rightarrow>
                         if length sch' > 0
                         then (PointerTo t v', Failed (NotFoundError (map fst sch')))
                         else (PointerTo t v', Done)
                     | (v', sch', out) \<Rightarrow> (PointerTo t v', out)))))"

section \<open>Observing a target\<close>

text \<open>
  The field of a value at an index path, read the way a Go program reads it
  (\<^verbatim>\<open>cfg.External.A\<close>): a pointer met on the way is followed, and there is no field
  behind a nil pointer. A field is allocated when it can be read in this way.
\<close>

definition through :: "val \<Rightarrow> val option" where
  "through v = (case v of VPtr None \<Rightarrow> None | VPtr (Some x) \<Rightarrow> Some x | _ \<Rightarrow> Some v)"

fun field_at :: "val \<Rightarrow> nat list \<Rightarrow> val option" where
  "field_at v [] = Some v"
| "field_at v (i # index) =
     (case v of
        VStruct vs \<Rightarrow>
          if i < length vs then
            (case through (vs ! i) of None \<Rightarrow> None | Some x \<Rightarrow> field_at x index)
          else None
      | _ \<Rightarrow> None)"

fun is_struct :: "val \<Rightarrow> bool" where
  "is_struct (VStruct vs) = True"
| "is_struct v = False"

text \<open>
  A value has the shape of a type: what \<^verbatim>\<open>reflect\<close> guarantees of every value it hands
  out. (The range of an integer is not part of the shape.)
\<close>

fun conforms :: "ty \<Rightarrow> val \<Rightarrow> bool" where
  "conforms TString v = (case v of VString x \<Rightarrow> True | _ \<Rightarrow> False)"
| "conforms TInt v = (case v of VInt n \<Rightarrow> True | _ \<Rightarrow> False)"
| "conforms TInt8 v = (case v of VInt n \<Rightarrow> True | _ \<Rightarrow> False)"
| "conforms TInt16 v = (case v of VInt n \<Rightarrow> True | _ \<Rightarrow> False)"
| "conforms TInt32 v = (case v of VInt n \<Rightarrow> True | _ \<Rightarrow> False)"
| "conforms TInt64 v = (case v of VInt n \<Rightarrow> True | _ \<Rightarrow> False)"
| "conforms TFloat32 v = (case v of VFloat32 x \<Rightarrow> True | _ \<Rightarrow> False)"
| "conforms TFloat64 v = (case v of VFloat64 x \<Rightarrow> True | _ \<Rightarrow> False)"
| "conforms TDuration v = (case v of VDuration d \<Rightarrow> True | _ \<Rightarrow> False)"
| "conforms TTime v = (case v of VTime tm \<Rightarrow> True | _ \<Rightarrow> False)"
| "conforms (TPtr t) v =
     (case v of VPtr None \<Rightarrow> True | VPtr (Some x) \<Rightarrow> conforms t x | _ \<Rightarrow> False)"
| "conforms (TSlice t) v = (case v of VSlice xs \<Rightarrow> list_all (conforms t) xs | _ \<Rightarrow> False)"
| "conforms (TStruct fs) v =
     (case v of
        VStruct vs \<Rightarrow> list_all2 (\<lambda>f x. conforms (ftype f) x) fs vs
      | _ \<Rightarrow> False)"
| "conforms (TOther k) v = (case v of VOther \<Rightarrow> True | _ \<Rightarrow> False)"

text \<open>
  An index path of a type that ends at a field of pointer type, through fields of
  struct type or of pointer-to-struct type: an optional field of the configuration.
\<close>

fun ptr_field :: "ty \<Rightarrow> nat list \<Rightarrow> bool" where
  "ptr_field t [] = False"
| "ptr_field t [i] =
     (case t of TStruct fs \<Rightarrow> i < length fs \<and> Kind (ftype (fs ! i)) = KPtr | _ \<Rightarrow> False)"
| "ptr_field t (i # j # index) =
     (case t of
        TStruct fs \<Rightarrow> i < length fs \<and> ptr_field (Elem_if_Ptr (ftype (fs ! i))) (j # index)
      | _ \<Rightarrow> False)"

section \<open>The parameters and configurations of the tests\<close>

definition stringParam :: "string \<Rightarrow> string \<Rightarrow> Parameter" where
  "stringParam name value = \<lparr>Name = name, Type = ParameterTypeString, Value = value\<rparr>"

definition stringListParam :: "string \<Rightarrow> string \<Rightarrow> Parameter" where
  "stringListParam name value = \<lparr>Name = name, Type = ParameterTypeStringList, Value = value\<rparr>"

text \<open>\<^verbatim>\<open>struct { Foo string `ssm:"foo"`; Bar string `ssm:"bar"` }\<close>\<close>

definition FooBar :: ty where
  "FooBar = TStruct [SField ''Foo'' [] [(''ssm'', ''foo'')] TString,
                     SField ''Bar'' [] [(''ssm'', ''bar'')] TString]"

text \<open>
  \<^verbatim>\<open>struct { Foo string `ssm:"foo"`; Names []string `ssm:"names"`;
  Ext *struct { B string `ssm:"b"` } `ssm:"ext"` }\<close>
\<close>

definition FooNamesExt :: ty where
  "FooNamesExt = TStruct
     [SField ''Foo'' [] [(''ssm'', ''foo'')] TString,
      SField ''Names'' [] [(''ssm'', ''names'')] (TSlice TString),
      SField ''Ext'' [] [(''ssm'', ''ext'')]
        (TPtr (TStruct [SField ''B'' [] [(''ssm'', ''b'')] TString]))]"

text \<open>A library whose parsers reject every input, for examples that never call them.\<close>

definition rejecting :: stdlib where
  "rejecting = \<lparr>time_ParseDuration = (\<lambda>s. Inl ''invalid''), time_Parse = (\<lambda>l s. Inl ''invalid''),
                 strconv_ParseFloat = (\<lambda>s. Inl ErrSyntax), float32 = (\<lambda>x. 0)\<rparr>"

section \<open>Properties of the options and of the constructor\<close>







text \<open>
  Claim C3 says that \<^verbatim>\<open>NewParamStore\<close> without \<^verbatim>\<open>WithClient\<close> stores a default client.
  In the code the default configuration is loaded and the option is built, but it is
  not applied: with no option at all the store returned is the store of the defaults,
  its client is nil, and \<^verbatim>\<open>Read\<close> panics when it calls the client.
\<close>

theorem NewParamStore_client_unset:
  "NewParamStore (Inr cfg) ssm_New [] = Inr defaults \<and> cli defaults = None
   \<and> Read L defaults (PointerTo (TStruct []) (VStruct []))
       = (PointerTo (TStruct []) (VStruct []),
          Panicked ''invalid memory address or nil pointer dereference'')"
  by (simp add: NewParamStore_def defaults_def schema_def)

section \<open>Properties of the conversion\<close>

text \<open>
  Claim C7 says that the number converter stores the integer the payload denotes,
  parsed for the width of the field. The code parses for 64 bits whatever the field,
  and \<^verbatim>\<open>SetInt\<close> keeps the low bits: \<^verbatim>\<open>300\<close> read into an \<^verbatim>\<open>int8\<close> field is stored as 44,
  without an error.
\<close>

theorem ParseNumber_int8_wraps:
  "setValue L (WithParseNumber defaults)
     \<lparr>Name = ''/port'', Type = ParameterTypeString, Value = ''300''\<rparr> TInt8 = Inr (VInt 44)"
  by (simp add: setValue.simps WithParseNumber_def defaults_def ParseInt_def ParseUint_def
      isDigit_def maxUint64_def)

text \<open>No converter of the package accepts a slice or a string.\<close>

lemma conv_TSlice: "conv L c p (TSlice te) = Inr None"
  by (cases c) simp_all

lemma run_converters_TSlice: "run_converters L cs p (TSlice te) = Inr None"
  by (induction cs) (simp_all add: conv_TSlice)

lemma conv_TString: "conv L c p TString = Inr None"
  by (cases c) simp_all

lemma run_converters_TString: "run_converters L cs p TString = Inr None"
  by (induction cs) (simp_all add: conv_TString)

lemma setValue_TString:
  "setValue L s p TString =
     (if Type p = ParameterTypeString \<or> Type p = ParameterTypeSecureString
      then Inr (VString (Value p)) else Inl (ErrCannotAssign (Type p) TString))"
  by (subst setValue.simps) (simp add: run_converters_TString)

lemma setValue_TSlice:
  "setValue L s p (TSlice te) =
     (if Type p \<noteq> ParameterTypeStringList then Inl (ErrCannotSet (Type p) (TSlice te))
      else case set_parts 0
                  (map (\<lambda>part. setValue L s
                          \<lparr>Name = [], Type = ParameterTypeString, Value = part\<rparr> te)
                     (Split (Value p) CHR '',''))
           of Inl err \<Rightarrow> Inl err | Inr xs \<Rightarrow> Inr (VSlice xs))"
  by (subst setValue.simps) (simp add: run_converters_TSlice)

lemma set_parts_all_Inr: "set_parts i (map (\<lambda>x. Inr (f x)) xs) = Inr (map f xs)"
  by (induction xs arbitrary: i) simp_all

text \<open>
  Claim C5. Whatever the converters of the store: a string list \<^verbatim>\<open>a,b,c\<close> set into a
  \<^verbatim>\<open>[]string\<close> gives the slice of \<^verbatim>\<open>a\<close>, \<^verbatim>\<open>b\<close>, \<^verbatim>\<open>c\<close> in this order; any string list set
  into a \<^verbatim>\<open>[]string\<close> gives the parts of the payload between the commas, in order; for
  any element type the parts are converted one by one, as plain strings, each at its
  position; and a plain string or a secure string set into a slice is always an error.
\<close>

theorem setValue_slice_list:
  "setValue L s \<lparr>Name = n, Type = ParameterTypeStringList, Value = ''a,b,c''\<rparr> (TSlice TString)
     = Inr (VSlice [VString ''a'', VString ''b'', VString ''c''])
   \<and> setValue L s \<lparr>Name = n, Type = ParameterTypeStringList, Value = x\<rparr> (TSlice TString)
     = Inr (VSlice (map VString (Split x CHR '','')))
   \<and> setValue L s \<lparr>Name = n, Type = ParameterTypeStringList, Value = x\<rparr> (TSlice te)
     = (case set_parts 0
               (map (\<lambda>part. setValue L s
                       \<lparr>Name = [], Type = ParameterTypeString, Value = part\<rparr> te)
                  (Split x CHR '',''))
        of Inl err \<Rightarrow> Inl err | Inr xs \<Rightarrow> Inr (VSlice xs))
   \<and> setValue L s \<lparr>Name = n, Type = ParameterTypeString, Value = x\<rparr> (TSlice te)
     = Inl (ErrCannotSet ParameterTypeString (TSlice te))
   \<and> setValue L s \<lparr>Name = n, Type = ParameterTypeSecureString, Value = x\<rparr> (TSlice te)
     = Inl (ErrCannotSet ParameterTypeSecureString (TSlice te))"
  by (simp add: setValue_TSlice setValue_TString set_parts_all_Inr)

text \<open>
  Claim C10. A string list with the empty payload set into a slice gives a slice of
  length one, whose element is converted from the empty string: for a \<^verbatim>\<open>[]string\<close> the
  slice holding the empty string, and for any element type an error exactly when the
  conversion of the empty string into the element type fails.
\<close>

theorem setValue_slice_empty_payload:
  "setValue L s \<lparr>Name = n, Type = ParameterTypeStringList, Value = []\<rparr> (TSlice TString)
     = Inr (VSlice [VString []])
   \<and> setValue L s \<lparr>Name = n, Type = ParameterTypeStringList, Value = []\<rparr> (TSlice te)
     = (case setValue L s \<lparr>Name = [], Type = ParameterTypeString, Value = []\<rparr> te of
          Inl err \<Rightarrow> Inl (ErrSliceIndex 0 err)
        | Inr x \<Rightarrow> Inr (VSlice [x]))"
  by (simp add: setValue_TSlice setValue_TString split: sum.splits)

section \<open>Properties of Read\<close>

lemma conv_TStruct: "conv L c p (TStruct fs) = Inr None"
  by (cases c) simp_all

lemma run_converters_TStruct: "run_converters L cs p (TStruct fs) = Inr None"
  by (induction cs) (simp_all add: conv_TStruct)

lemma setValue_TStruct: "setValue L s p (TStruct fs) = Inl (ErrUnsupported KStruct)"
  by (subst setValue.simps) (simp add: run_converters_TStruct)

lemma process_append:
  "process L s (ps1 @ ps2) sch t v =
     (case process L s ps1 sch t v of
        (v1, sch1, Done) \<Rightarrow> process L s ps2 sch1 t v1
      | (v1, sch1, out) \<Rightarrow> (v1, sch1, out))"
  by (induction ps1 arbitrary: sch v) (simp_all add: Let_def split: prod.splits outcome.splits)

text \<open>After a loop that ended normally the schema holds the names no parameter carried.\<close>

lemma process_keys:
  "process L s ps sch t v = (v', sch', out) \<Longrightarrow> out = Done \<Longrightarrow>
   map fst sch' = filter (\<lambda>k. k \<notin> Name ` set ps) (map fst sch)"
proof (induction ps arbitrary: sch v)
  case Nil
  then show ?case by simp
next
  case (Cons p ps)
  then show ?case
    by (auto simp: Let_def delete_keys removeAll_filter_not_eq
        split: prod.splits outcome.splits intro!: filter_cong)
qed

lemma fold_update_distinct:
  "distinct (map fst m) \<Longrightarrow> distinct (map fst (fold (\<lambda>(k, v) m. AList.update k v m) xs m))"
  by (induction xs arbitrary: m) (auto simp: distinct_update)

lemma schema_loop_distinct:
  "schema_loop tg fs kp index i m = Inr m' \<Longrightarrow> distinct (map fst m) \<Longrightarrow> distinct (map fst m')"
proof (induction tg fs kp index i m arbitrary: m' rule: schema_loop.induct)
  case (1 tg keyPrefix index i m)
  then show ?case by simp
next
  case (2 tg f fs keyPrefix index i m)
  then show ?case
    by (auto simp: Let_def fold_update_distinct distinct_update
        split: option.splits if_splits ty.splits sum.splits)
qed

lemma schema_distinct: "schema s t kp index = Inr sch \<Longrightarrow> distinct (map fst sch)"
  by (cases t) (auto simp: schema_def dest: schema_loop_distinct)

text \<open>
  Claim C4. The schema is resolved, the client answers with the parameters \<open>ps\<close>, and
  the loop over \<open>ps\<close> ends normally, leaving the target \<open>v'\<close>. If some resolved name is
  carried by no parameter, \<^verbatim>\<open>Read\<close> returns a \<^verbatim>\<open>NotFoundError\<close> whose names are exactly the
  resolved names that no parameter carries, each once; the target keeps every
  assignment of the loop.
\<close>

theorem Read_NotFoundError:
  assumes "Kind t = KStruct"
    and "schema s t (prefix s) [] = Inr sch"
    and "cli s = Some c"
    and "c (map fst sch) = Inr ps"
    and "process L s ps sch t v = (v', sch', Done)"
    and "\<exists>k \<in> fst ` set sch. k \<notin> Name ` set ps"
  shows "\<exists>names. Read L s (PointerTo t v) = (PointerTo t v', Failed (NotFoundError names))
           \<and> set names = fst ` set sch - Name ` set ps \<and> distinct names"
proof -
  have keys: "map fst sch' = filter (\<lambda>k. k \<notin> Name ` set ps) (map fst sch)"
    using assms(5) by (rule process_keys) simp
  have "distinct (map fst sch)"
    using assms(2) by (rule schema_distinct)
  then have d: "distinct (map fst sch')"
    by (simp add: keys)
  have s: "set (map fst sch') = fst ` set sch - Name ` set ps"
    by (auto simp: keys)
  with assms(6) have "sch' \<noteq> []"
    by auto
  then have "Read L s (PointerTo t v) = (PointerTo t v', Failed (NotFoundError (map fst sch')))"
    using assms(1-5) by simp
  with d s show ?thesis
    by blast
qed

text \<open>The cases of a walk: the empty path, and a path with a first index.\<close>

lemma walk_Nil_cases:
  obtains (fail) err where "setValue L s p t = Inl err" "walk L s p t v [] = (v, Failed err)"
  | (ok) v' where "setValue L s p t = Inr v'" "walk L s p t v [] = (v', Done)"
  by (cases "setValue L s p t") auto

lemma walk_Cons_cases:
  obtains (panic) msg where "walk L s p t v (i # path) = (v, Panicked msg)"
  | (alloc) fs vs te r out where "t = TStruct fs" "v = VStruct vs" "i < length fs" "i < length vs"
      "ftype (fs ! i) = TPtr te" "vs ! i = VPtr None"
      "walk L s p te (zero te) path = (r, out)"
      "walk L s p t v (i # path) = (VStruct (vs[i := VPtr (Some r)]), out)"
  | (step) fs vs r out where "t = TStruct fs" "v = VStruct vs" "i < length fs" "i < length vs"
      "\<not> (\<exists>te. ftype (fs ! i) = TPtr te \<and> vs ! i = VPtr None)"
      "walk L s p (ftype (fs ! i)) (vs ! i) path = (r, out)"
      "walk L s p t v (i # path) = (VStruct (vs[i := r]), out)"
proof (cases "\<exists>fs vs. t = TStruct fs \<and> v = VStruct vs \<and> i < length fs \<and> i < length vs")
  case False
  then have "\<exists>msg. walk L s p t v (i # path) = (v, Panicked msg)"
    by (cases t; cases v) auto
  then show ?thesis using panic by blast
next
  case True
  then obtain fs vs where tv: "t = TStruct fs" "v = VStruct vs" "i < length fs" "i < length vs"
    by blast
  show ?thesis
  proof (cases "\<exists>te. ftype (fs ! i) = TPtr te \<and> vs ! i = VPtr None")
    case True
    then obtain te where te: "ftype (fs ! i) = TPtr te" "vs ! i = VPtr None" by blast
    obtain r out where w: "walk L s p te (zero te) path = (r, out)" by (cases "walk L s p te (zero te) path")
    from tv te w have "walk L s p t v (i # path) = (VStruct (vs[i := VPtr (Some r)]), out)"
      by simp
    with tv te w show ?thesis using alloc by blast
  next
    case False
    obtain r out where w: "walk L s p (ftype (fs ! i)) (vs ! i) path = (r, out)"
      by (cases "walk L s p (ftype (fs ! i)) (vs ! i) path")
    from tv False w have "walk L s p t v (i # path) = (VStruct (vs[i := r]), out)"
      by (auto split: ty.splits val.splits option.splits)
    with tv False w show ?thesis using step by blast
  qed
qed

declare walk.simps [simp del]

lemma walk_not_struct:
  "walk L s p t v path = (r, out) \<Longrightarrow> out \<noteq> Done \<Longrightarrow> \<not> is_struct v \<Longrightarrow> r = v"
proof (cases path)
  case Nil
  assume "walk L s p t v path = (r, out)" "out \<noteq> Done"
  with Nil show ?thesis by (cases rule: walk_Nil_cases [of L s p t v]) auto
next
  case (Cons i path')
  assume "walk L s p t v path = (r, out)" "\<not> is_struct v"
  with Cons show ?thesis by (cases rule: walk_Cons_cases [of L s p t v i path']) auto
qed

lemma walk_struct:
  "walk L s p t v path = (r, out) \<Longrightarrow> out \<noteq> Done \<Longrightarrow> is_struct v \<Longrightarrow> is_struct r"
proof (cases path)
  case Nil
  assume "walk L s p t v path = (r, out)" "out \<noteq> Done" "is_struct v"
  with Nil show ?thesis by (cases rule: walk_Nil_cases [of L s p t v]) auto
next
  case (Cons i path')
  assume "walk L s p t v path = (r, out)" "is_struct v"
  with Cons show ?thesis by (cases rule: walk_Cons_cases [of L s p t v i path']) auto
qed

lemma through_struct: "is_struct v \<Longrightarrow> through v = Some v"
  by (cases v) (simp_all add: through_def)

lemma through_cases:
  obtains (nil) "v = VPtr None" "through v = None"
  | (ptr) x where "v = VPtr (Some x)" "through v = Some x"
  | (other) "through v = Some v" "\<forall>x. v \<noteq> VPtr x"
  by (cases v) (auto simp: through_def split: option.splits)

text \<open>
  A walk that does not end normally changes nothing but nil pointers: a field that
  could be read before, and is not itself a struct, reads the same afterwards.
\<close>

lemma walk_keeps:
  "walk L s p t v path = (v', out) \<Longrightarrow> out \<noteq> Done \<Longrightarrow> field_at v ix = Some x \<Longrightarrow>
   \<not> is_struct x \<Longrightarrow> field_at v' ix = Some x"
proof (induction path arbitrary: t v v' ix)
  case Nil
  then show ?case by (cases rule: walk_Nil_cases [of L s p t v]) auto
next
  case (Cons i path)
  show ?case
  proof (cases rule: walk_Cons_cases [of L s p t v i path])
    case (panic msg)
    with Cons.prems show ?thesis by simp
  next
    case (alloc fs vs te r out')
    with Cons.prems have v': "v' = VStruct (vs[i := VPtr (Some r)])" by simp
    show ?thesis
    proof (cases ix)
      case Nil
      with Cons.prems(3,4) alloc(2) show ?thesis by auto
    next
      case (Cons j js)
      with Cons.prems(3) alloc v' show ?thesis
        by (cases "j = i") (auto simp: through_def split: if_splits)
    qed
  next
    case (step fs vs r out')
    with Cons.prems have v': "v' = VStruct (vs[i := r])" and out: "out' = out" by simp_all
    from step(6) out have w: "walk L s p (ftype (fs ! i)) (vs ! i) path = (r, out)" by simp
    show ?thesis
    proof (cases ix)
      case Nil
      with Cons.prems(3,4) step(2) show ?thesis by auto
    next
      case ix: (Cons j js)
      show ?thesis
      proof (cases "j = i")
        case False
        with ix Cons.prems(3) step v' show ?thesis by (auto split: if_splits)
      next
        case True
        show ?thesis
        proof (cases "is_struct (vs ! i)")
          case s: True
          then have "is_struct r" using w Cons.prems(2) walk_struct by blast
          moreover have "field_at (vs ! i) js = Some x"
            using Cons.prems(3) ix True step s by (simp add: through_struct)
          then have "field_at r js = Some x"
            using Cons.IH [OF w] Cons.prems(2,4) by simp
          ultimately show ?thesis using ix True step v' by (simp add: through_struct)
        next
          case False
          then have "r = vs ! i" using w Cons.prems(2) walk_not_struct by blast
          with ix True step v' Cons.prems(3) show ?thesis by simp
        qed
      qed
    qed
  qed
qed

lemma walk_Failed_setValue:
  "walk L s p t v path = (v', Failed err) \<Longrightarrow> \<exists>t'. setValue L s p t' = Inl err"
proof (induction path arbitrary: t v v')
  case Nil
  then show ?case by (cases rule: walk_Nil_cases [of L s p t v]) auto
next
  case (Cons i path)
  show ?case
  proof (cases rule: walk_Cons_cases [of L s p t v i path])
    case (panic msg)
    with Cons.prems show ?thesis by simp
  next
    case (alloc fs vs te r out)
    with Cons.prems have "walk L s p te (zero te) path = (r, Failed err)" by simp
    then show ?thesis by (rule Cons.IH)
  next
    case (step fs vs r out)
    with Cons.prems have "walk L s p (ftype (fs ! i)) (vs ! i) path = (r, Failed err)" by simp
    then show ?thesis by (rule Cons.IH)
  qed
qed

text \<open>
  Claim C2, as the code has it. The loop looks a name up without asking whether it is in
  the map: for a parameter whose name is not in the schema (it was never resolved, or
  an earlier parameter with the same name has removed it) the path is empty, so
  \<^verbatim>\<open>setValue\<close> is called on the target struct itself. No converter and no built-in rule
  accepts a struct: no field is assigned, \<^verbatim>\<open>Read\<close> returns the error \<^verbatim>\<open>unsupported: struct\<close>
  behind the name, and the parameters after it are not processed.
\<close>

theorem Read_absent_entry:
  assumes "schema s (TStruct fs) (prefix s) [] = Inr sch"
    and "cli s = Some c"
    and "c (map fst sch) = Inr (ps1 @ p # ps2)"
    and "process L s ps1 sch (TStruct fs) v = (v1, sch1, Done)"
    and "map_of sch1 (Name p) = None"
  shows "Read L s (PointerTo (TStruct fs) v)
         = (PointerTo (TStruct fs) v1, Failed (ErrName (Name p) (ErrUnsupported KStruct)))"
proof -
  have "walk L s p (TStruct fs) v1 [] = (v1, Failed (ErrUnsupported KStruct))"
    by (simp add: walk.simps setValue_TStruct)
  with assms(5) have "process L s (p # ps2) sch1 (TStruct fs) v1
      = (v1, AList.delete (Name p) sch1, Failed (ErrName (Name p) (ErrUnsupported KStruct)))"
    by (simp add: Let_def)
  with assms(4) have "process L s (ps1 @ p # ps2) sch (TStruct fs) v
      = (v1, AList.delete (Name p) sch1, Failed (ErrName (Name p) (ErrUnsupported KStruct)))"
    by (simp add: process_append)
  with assms(1-3) show ?thesis by simp
qed

theorem Read_absent_entry_witness:
  "\<forall>L. Read L (WithClient (\<lambda>names. Inr [stringParam ''/foo'' ''abc'', stringParam ''/other'' ''x'',
                                         stringParam ''/bar'' ''def'']) defaults)
          (PointerTo FooBar (zero FooBar))
        = (PointerTo FooBar (VStruct [VString ''abc'', VString []]),
           Failed (ErrName ''/other'' (ErrUnsupported KStruct)))"
proof
  fix L
  let ?ps = "[stringParam ''/foo'' ''abc'', stringParam ''/other'' ''x'', stringParam ''/bar'' ''def'']"
  let ?c = "\<lambda>names :: string list. Inr ?ps :: string + Parameter list"
  let ?s = "WithClient ?c defaults"
  let ?fs = "[SField ''Foo'' [] [(''ssm'', ''foo'')] TString,
              SField ''Bar'' [] [(''ssm'', ''bar'')] TString]"
  have h1: "schema ?s (TStruct ?fs) (prefix ?s) [] = Inr [(''/foo'', [0]), (''/bar'', [1])]"
    by (simp add: schema_def defaults_def Elem_if_Ptr_def WithClient_def)
  have h2: "cli ?s = Some ?c" by (simp add: WithClient_def)
  have h3: "?c (map fst [(''/foo'', [0::nat]), (''/bar'', [1])])
      = Inr ([stringParam ''/foo'' ''abc''] @ stringParam ''/other'' ''x'' # [stringParam ''/bar'' ''def''])"
    by simp
  have h4: "process L ?s [stringParam ''/foo'' ''abc''] [(''/foo'', [0]), (''/bar'', [1])]
        (TStruct ?fs) (zero (TStruct ?fs))
      = (VStruct [VString ''abc'', VString []], [(''/bar'', [1])], Done)"
    by (simp add: stringParam_def walk.simps setValue_TString)
  have h5: "map_of [(''/bar'', [1::nat])] (Name (stringParam ''/other'' ''x'')) = None"
    by (simp add: stringParam_def)
  from Read_absent_entry [OF h1 h2 h3 h4 h5]
  show "Read L ?s (PointerTo FooBar (zero FooBar))
        = (PointerTo FooBar (VStruct [VString ''abc'', VString []]),
           Failed (ErrName ''/other'' (ErrUnsupported KStruct)))"
    by (simp add: FooBar_def stringParam_def)
qed

text \<open>
  Claim C2 as stated fails: the client answers with \<^verbatim>\<open>/foo\<close>, \<^verbatim>\<open>/other\<close> and \<^verbatim>\<open>/bar\<close> for a
  configuration that resolves \<^verbatim>\<open>/foo\<close> and \<^verbatim>\<open>/bar\<close>; the parameter \<^verbatim>\<open>/other\<close> is not ignored,
  it makes \<^verbatim>\<open>Read\<close> return an error and \<^verbatim>\<open>Bar\<close> is never set.
\<close>

theorem Read_absent_entry_counterexample:
  "Read rejecting
        (WithClient (\<lambda>names. Inr [stringParam ''/foo'' ''abc'', stringParam ''/other'' ''x'',
                                   stringParam ''/bar'' ''def'']) defaults)
        (PointerTo FooBar (zero FooBar))
   = (PointerTo FooBar (VStruct [VString ''abc'', VString []]),
      Failed (ErrName ''/other'' (ErrUnsupported KStruct)))"
  by (simp add: FooBar_def stringParam_def schema_def defaults_def Elem_if_Ptr_def WithClient_def
      walk.simps setValue_TString setValue_TStruct)

text \<open>
  Claim C6. The parameters before \<open>p\<close> are processed normally and leave the target
  \<open>v1\<close>; then the walk for \<open>p\<close> ends with \<^verbatim>\<open>setValue\<close> returning \<open>err\<close>. \<^verbatim>\<open>Read\<close> returns
  \<open>err\<close> behind the name of \<open>p\<close>, whatever parameters follow (they are not processed and
  no \<^verbatim>\<open>NotFoundError\<close> is built), and every field that held a value in \<open>v1\<close> holds the
  same value in the target \<^verbatim>\<open>Read\<close> leaves: nothing is rolled back.
\<close>

theorem Read_conversion_error:
  assumes "Kind t = KStruct"
    and "schema s t (prefix s) [] = Inr sch"
    and "cli s = Some c"
    and "c (map fst sch) = Inr (ps1 @ p # ps2)"
    and "process L s ps1 sch t v = (v1, sch1, Done)"
    and "walk L s p t v1 (case map_of sch1 (Name p) of None \<Rightarrow> [] | Some ix \<Rightarrow> ix)
         = (v2, Failed err)"
  shows "Read L s (PointerTo t v) = (PointerTo t v2, Failed (ErrName (Name p) err))
         \<and> (\<exists>t'. setValue L s p t' = Inl err)
         \<and> (\<forall>ix x. field_at v1 ix = Some x \<and> \<not> is_struct x \<longrightarrow> field_at v2 ix = Some x)"
proof -
  from assms(6) have "process L s (p # ps2) sch1 t v1
      = (v2, AList.delete (Name p) sch1, Failed (ErrName (Name p) err))"
    by (simp add: Let_def)
  with assms(5) have "process L s (ps1 @ p # ps2) sch t v
      = (v2, AList.delete (Name p) sch1, Failed (ErrName (Name p) err))"
    by (simp add: process_append)
  with assms(1-4) have "Read L s (PointerTo t v) = (PointerTo t v2, Failed (ErrName (Name p) err))"
    by simp
  moreover from assms(6) have "\<exists>t'. setValue L s p t' = Inl err"
    by (rule walk_Failed_setValue)
  moreover have "field_at v2 ix = Some x" if "field_at v1 ix = Some x" "\<not> is_struct x" for ix x
    using assms(6) _ that by (rule walk_keeps) simp
  ultimately show ?thesis by blast
qed

theorem Read_conversion_error_witness:
  "\<forall>L. Read L (WithClient (\<lambda>names. Inr [stringParam ''/foo'' ''bar'', stringParam ''/names'' ''alice'',
                                         stringParam ''/ext/b'' ''y'']) defaults)
          (PointerTo FooNamesExt (zero FooNamesExt))
        = (PointerTo FooNamesExt (VStruct [VString ''bar'', VSlice [], VPtr None]),
           Failed (ErrName ''/names'' (ErrCannotSet ParameterTypeString (TSlice TString))))"
proof
  fix L
  let ?ps = "[stringParam ''/foo'' ''bar'', stringParam ''/names'' ''alice'', stringParam ''/ext/b'' ''y'']"
  let ?c = "\<lambda>names :: string list. Inr ?ps :: string + Parameter list"
  let ?s = "WithClient ?c defaults"
  let ?sch = "[(''/foo'', [0::nat]), (''/names'', [1]), (''/ext/b'', [2, 0])]"
  let ?v1 = "VStruct [VString ''bar'', VSlice [], VPtr None]"
  have h1: "Kind FooNamesExt = KStruct" by (simp add: FooNamesExt_def)
  have h2: "schema ?s FooNamesExt (prefix ?s) [] = Inr ?sch"
    by (simp add: schema_def FooNamesExt_def defaults_def Elem_if_Ptr_def WithClient_def)
  have h3: "cli ?s = Some ?c" by (simp add: WithClient_def)
  have h4: "?c (map fst ?sch)
      = Inr ([stringParam ''/foo'' ''bar''] @ stringParam ''/names'' ''alice'' # [stringParam ''/ext/b'' ''y''])"
    by simp
  have h5: "process L ?s [stringParam ''/foo'' ''bar''] ?sch FooNamesExt (zero FooNamesExt)
      = (?v1, [(''/names'', [1]), (''/ext/b'', [2, 0])], Done)"
    by (simp add: FooNamesExt_def stringParam_def walk.simps setValue_TString)
  have h6: "walk L ?s (stringParam ''/names'' ''alice'') FooNamesExt ?v1
        (case map_of [(''/names'', [1::nat]), (''/ext/b'', [2, 0])] (Name (stringParam ''/names'' ''alice''))
         of None \<Rightarrow> [] | Some ix \<Rightarrow> ix)
      = (?v1, Failed (ErrCannotSet ParameterTypeString (TSlice TString)))"
    by (simp add: FooNamesExt_def stringParam_def walk.simps setValue_TSlice)
  from Read_conversion_error [OF h1 h2 h3 h4 h5 h6]
  show "Read L ?s (PointerTo FooNamesExt (zero FooNamesExt))
        = (PointerTo FooNamesExt ?v1,
           Failed (ErrName ''/names'' (ErrCannotSet ParameterTypeString (TSlice TString))))"
    by (simp add: stringParam_def)
qed

text \<open>Small steps of the store, of the loop and of \<^verbatim>\<open>Read\<close>, for the examples.\<close>

lemma WithClient_sel:
  "prefix (WithClient c s) = prefix s" "tag (WithClient c s) = tag s"
  "converters (WithClient c s) = converters s" "cli (WithClient c s) = Some c"
  by (simp_all add: WithClient_def)

lemma defaults_sel:
  "prefix defaults = []" "tag defaults = ''ssm''" "converters defaults = []" "cli defaults = None"
  by (simp_all add: defaults_def)

lemma process_Failed:
  "walk L s p t v (case map_of sch (Name p) of None \<Rightarrow> [] | Some ix \<Rightarrow> ix) = (v', Failed err) \<Longrightarrow>
   process L s (p # ps) sch t v = (v', AList.delete (Name p) sch, Failed (ErrName (Name p) err))"
  by (simp add: Let_def)

lemma process_Done:
  "walk L s p t v (case map_of sch (Name p) of None \<Rightarrow> [] | Some ix \<Rightarrow> ix) = (v', Done) \<Longrightarrow>
   process L s (p # ps) sch t v = process L s ps (AList.delete (Name p) sch) t v'"
  by (simp add: Let_def)

lemma Read_PointerTo:
  "Kind t = KStruct \<Longrightarrow> schema s t (prefix s) [] = Inr sch \<Longrightarrow> cli s = Some c \<Longrightarrow>
   c (map fst sch) = Inr ps \<Longrightarrow> process L s ps sch t v = (v', sch', out) \<Longrightarrow>
   Read L s (PointerTo t v) =
     (PointerTo t v',
      if out = Done \<and> sch' \<noteq> [] then Failed (NotFoundError (map fst sch')) else out)"
  by (cases out) simp_all

section \<open>Shapes are kept, pointers are allocated\<close>

lemma conforms_zero: "conforms t (zero t)" and "conforms (ftype f) (zero_field f)"
proof (induction t and f rule: zero_zero_field.induct)
  case (13 fs)
  then show ?case by (simp add: list_all2_conv_all_nth)
qed simp_all


lemma conv_conforms: "conv L c p t = Inr (Some v) \<Longrightarrow> conforms t v"
proof (cases c)
  case ConvNumber
  assume "conv L c p t = Inr (Some v)"
  with ConvNumber show ?thesis
    by (cases t) (auto split: if_splits sum.splits)
qed (auto split: if_splits sum.splits)

lemma run_converters_conforms: "run_converters L cs p t = Inr (Some v) \<Longrightarrow> conforms t v"
  by (induction cs) (auto split: sum.splits option.splits dest: conv_conforms)

lemma set_parts_Inr: "set_parts i rs = Inr xs \<Longrightarrow> rs = map Inr xs"
  by (induction rs arbitrary: i xs) (auto split: sum.splits)

lemma setValue_conforms: "setValue L s p t = Inr v \<Longrightarrow> conforms t v"
proof (induction L s p t arbitrary: v rule: setValue.induct)
  case (1 L s p t)
  show ?case
  proof (cases "run_converters L (converters s) p t")
    case (Inl err)
    with "1.prems" show ?thesis by (subst (asm) setValue.simps) simp
  next
    case (Inr r)
    show ?thesis
    proof (cases r)
      case (Some v')
      with Inr "1.prems" have "v' = v" by (subst (asm) setValue.simps) simp
      with Inr Some show ?thesis by (auto dest: run_converters_conforms)
    next
      case None
      show ?thesis
      proof (cases t)
        case TString
        with Inr None "1.prems" show ?thesis
          by (subst (asm) setValue.simps) (auto split: if_splits)
      next
        case (TSlice te)
        let ?f = "\<lambda>part. setValue L s \<lparr>Name = [], Type = ParameterTypeString, Value = part\<rparr> te"
        from TSlice Inr None "1.prems"
        obtain xs where sl: "Type p = ParameterTypeStringList"
          and xs: "set_parts 0 (map ?f (Split (Value p) CHR '','')) = Inr xs" and v: "v = VSlice xs"
          by (subst (asm) setValue.simps) (auto split: if_splits sum.splits)
        from xs have m: "map ?f (Split (Value p) CHR '','') = map Inr xs"
          by (rule set_parts_Inr)
        have "conforms te x" if "x \<in> set xs" for x
        proof -
          from that have "Inr x \<in> set (map ?f (Split (Value p) CHR '',''))"
            by (simp add: m)
          then obtain part where "part \<in> set (Split (Value p) CHR '','')" "?f part = Inr x"
            by auto
          then show ?thesis
            using "1.IH" [OF Inr None TSlice _ _] sl by auto
        qed
        with TSlice v show ?thesis by (simp add: list_all_iff)
      qed (use Inr None "1.prems" in \<open>subst (asm) setValue.simps, simp\<close>)+
    qed
  qed
qed


lemma conv_TPtr: "conv L c p (TPtr te) = Inr None"
  by (cases c) simp_all

lemma run_converters_TPtr: "run_converters L cs p (TPtr te) = Inr None"
  by (induction cs) (simp_all add: conv_TPtr)

lemma setValue_TPtr: "setValue L s p (TPtr te) = Inl (ErrUnsupported KPtr)"
  by (subst setValue.simps) (simp add: run_converters_TPtr)

lemma walk_TPtr_not_Done: "walk L s p (TPtr te) v path \<noteq> (r, Done)"
proof (cases path)
  case Nil
  then show ?thesis by (simp add: walk.simps setValue_TPtr)
next
  case (Cons i path')
  then show ?thesis by (cases rule: walk_Cons_cases [of L s p "TPtr te" v i path']) auto
qed

lemma conforms_struct_nth:
  "conforms (TStruct fs) (VStruct vs) \<Longrightarrow> i < length fs \<Longrightarrow> conforms (ftype (fs ! i)) (vs ! i)"
  by (simp add: list_all2_conv_all_nth)

lemma conforms_struct_update:
  "conforms (TStruct fs) (VStruct vs) \<Longrightarrow> i < length fs \<Longrightarrow> conforms (ftype (fs ! i)) x \<Longrightarrow>
   conforms (TStruct fs) (VStruct (vs[i := x]))"
  by (simp add: list_all2_conv_all_nth nth_list_update)

lemma conforms_through: "conforms t v \<Longrightarrow> Kind t \<noteq> KPtr \<Longrightarrow> through v = Some v"
  by (cases t; cases v) (simp_all add: through_def)

lemma conforms_is_struct: "conforms t v \<Longrightarrow> is_struct v \<Longrightarrow> \<exists>fs. t = TStruct fs"
  by (cases t; cases v) simp_all

lemma Kind_KPtr: "Kind t = KPtr \<longleftrightarrow> (\<exists>te. t = TPtr te)"
  by (cases t) simp_all

lemma Elem_if_Ptr_simps:
  "Elem_if_Ptr (TPtr te) = te" "Kind t \<noteq> KPtr \<Longrightarrow> Elem_if_Ptr t = t"
  by (cases t; simp add: Elem_if_Ptr_def)+

lemma walk_conforms:
  "walk L s p t v path = (v', out) \<Longrightarrow> conforms t v \<Longrightarrow> conforms t v'"
proof (induction path arbitrary: t v v' out)
  case Nil
  then show ?case
    by (cases rule: walk_Nil_cases [of L s p t v]) (auto dest: setValue_conforms)
next
  case (Cons i path)
  show ?case
  proof (cases rule: walk_Cons_cases [of L s p t v i path])
    case (panic msg)
    with Cons.prems show ?thesis by simp
  next
    case (alloc fs vs te r out')
    have "conforms te r"
      using alloc(7) conforms_zero(1) by (rule Cons.IH)
    then have "conforms (ftype (fs ! i)) (VPtr (Some r))"
      using alloc(5) by simp
    moreover have "conforms (TStruct fs) (VStruct vs)"
      using Cons.prems(2) alloc(1,2) by simp
    ultimately have "conforms (TStruct fs) (VStruct (vs[i := VPtr (Some r)]))"
      using alloc(3) by (simp only: conforms_struct_update)
    with Cons.prems(1) alloc(1,8) show ?thesis
      by simp
  next
    case (step fs vs r out')
    have c: "conforms (TStruct fs) (VStruct vs)"
      using Cons.prems(2) step(1,2) by simp
    then have "conforms (ftype (fs ! i)) (vs ! i)"
      using step(3) by (rule conforms_struct_nth)
    with step(6) have "conforms (ftype (fs ! i)) r"
      by (rule Cons.IH)
    with c step(3) have "conforms (TStruct fs) (VStruct (vs[i := r]))"
      by (simp only: conforms_struct_update)
    with Cons.prems(1) step(1,7) show ?thesis
      by simp
  qed
qed

lemma zero_field_ftype: "zero_field f = zero (ftype f)"
  by (cases f) simp

lemma zero_through: "Kind t \<noteq> KPtr \<Longrightarrow> through (zero t) = Some (zero t)"
  by (rule conforms_through [OF conforms_zero(1)])

lemma ptr_field_zero: "ptr_field t ix \<Longrightarrow> field_at (zero t) ix = None"
proof (induction t ix rule: ptr_field.induct)
  case (1 t)
  then show ?case by simp
next
  case (2 t i)
  then show ?case
    by (auto simp: Kind_KPtr zero_field_ftype through_def split: ty.splits)
next
  case (3 t i j index)
  from "3.prems" obtain fs where t: "t = TStruct fs" and i: "i < length fs"
    and p: "ptr_field (Elem_if_Ptr (ftype (fs ! i))) (j # index)"
    by (auto split: ty.splits)
  show ?case
  proof (cases "Kind (ftype (fs ! i)) = KPtr")
    case True
    then show ?thesis using t i
      by (auto simp: Kind_KPtr zero_field_ftype through_def)
  next
    case False
    then have "field_at (zero (ftype (fs ! i))) (j # index) = None"
      using "3.IH" [OF t] p by (simp add: Elem_if_Ptr_simps)
    then show ?thesis using t i False
      by (simp add: zero_field_ftype zero_through del: field_at.simps(2))
         (simp add: zero_field_ftype zero_through)
  qed
qed

lemma ptr_field_Cons:
  "ptr_field (TStruct fs) (i # ix) \<longleftrightarrow>
     i < length fs \<and> (if ix = [] then Kind (ftype (fs ! i)) = KPtr
                     else ptr_field (Elem_if_Ptr (ftype (fs ! i))) ix)"
  by (cases ix) simp_all

lemma ptr_field_struct: "ptr_field t ix \<Longrightarrow> \<exists>fs. t = TStruct fs"
  by (cases "(t, ix)" rule: ptr_field.cases) (auto split: ty.splits)

lemma field_at_Cons:
  "i < length vs \<Longrightarrow>
   field_at (VStruct vs) (i # ix) = (case through (vs ! i) of None \<Rightarrow> None | Some x \<Rightarrow> field_at x ix)"
  by simp

text \<open>
  A walk that ends normally allocates the optional fields on its path and no other:
  an optional field can be read afterwards exactly when it could be read before or the
  path of the walk goes through it.
\<close>

lemma walk_allocated:
  "walk L s p t v path = (v', Done) \<Longrightarrow> conforms t v \<Longrightarrow> ptr_field t ix \<Longrightarrow>
   (field_at v' ix \<noteq> None) = (field_at v ix \<noteq> None \<or> Sublist.prefix ix path)"
proof (induction path arbitrary: t v v' ix)
  case Nil
  from Nil.prems(3) obtain fs where "t = TStruct fs" by (auto dest: ptr_field_struct)
  with Nil.prems(1) show ?case by (simp add: walk.simps setValue_TStruct)
next
  case (Cons i path)
  show ?case
  proof (cases rule: walk_Cons_cases [of L s p t v i path])
    case (panic msg)
    with Cons.prems show ?thesis by simp
  next
    case (alloc fs vs te r out)
    with Cons.prems(1) have v': "v' = VStruct (vs[i := VPtr (Some r)])"
      and w: "walk L s p te (zero te) path = (r, Done)" by simp_all
    show ?thesis
    proof (cases ix)
      case Nil
      with Cons.prems(3) show ?thesis by simp
    next
      case ix: (Cons j js)
      show ?thesis
      proof (cases "j = i")
        case False
        with ix v' alloc(2,4) show ?thesis by (simp del: field_at.simps(2) add: field_at_Cons) auto
      next
        case True
        show ?thesis
        proof (cases "js = []")
          case True
          with \<open>j = i\<close> ix v' alloc(4) show ?thesis by (simp add: through_def)
        next
          case False
          with \<open>j = i\<close> ix Cons.prems(3) alloc(1,5) have pf: "ptr_field te js"
            by (simp add: ptr_field_Cons Elem_if_Ptr_simps)
          have "(field_at r js \<noteq> None) = (field_at (zero te) js \<noteq> None \<or> Sublist.prefix js path)"
            using w conforms_zero(1) pf by (rule Cons.IH)
          then have "(field_at r js \<noteq> None) = Sublist.prefix js path"
            using pf by (simp add: ptr_field_zero)
          with \<open>j = i\<close> ix v' alloc(2,4,6) show ?thesis
            by (simp add: through_def)
        qed
      qed
    qed
  next
    case (step fs vs r out)
    with Cons.prems(1) have v': "v' = VStruct (vs[i := r])"
      and w: "walk L s p (ftype (fs ! i)) (vs ! i) path = (r, Done)" by simp_all
    have c: "conforms (TStruct fs) (VStruct vs)"
      using Cons.prems(2) step(1,2) by simp
    then have cf: "conforms (ftype (fs ! i)) (vs ! i)"
      using step(3) by (rule conforms_struct_nth)
    have np: "Kind (ftype (fs ! i)) \<noteq> KPtr"
      using w walk_TPtr_not_Done by (auto simp: Kind_KPtr)
    have cr: "conforms (ftype (fs ! i)) r"
      using w cf by (rule walk_conforms)
    show ?thesis
    proof (cases ix)
      case Nil
      with Cons.prems(3) show ?thesis by simp
    next
      case ix: (Cons j js)
      show ?thesis
      proof (cases "j = i")
        case False
        with ix v' step(2,4) show ?thesis by (simp del: field_at.simps(2) add: field_at_Cons) auto
      next
        case True
        with ix Cons.prems(3) step(1) np have js: "js \<noteq> []" and pf: "ptr_field (ftype (fs ! i)) js"
          by (auto simp: ptr_field_Cons Elem_if_Ptr_simps split: if_splits)
        have "(field_at r js \<noteq> None) = (field_at (vs ! i) js \<noteq> None \<or> Sublist.prefix js path)"
          using w cf pf by (rule Cons.IH)
        with \<open>j = i\<close> ix v' step(2,4) conforms_through [OF cf np] conforms_through [OF cr np]
        show ?thesis by simp
      qed
    qed
  qed
qed

end
